theory Spec2Isabelle
  imports Main "HOL-Library.Sublist" "HOL-Library.AList"
begin

section \<open>The filesystem the undo manager works on\<close>

text \<open>
  \<open>UndoManager\<close> (src/main.py) and \<open>FileOperations\<close> (src/core/file_ops.py) act on the
  filesystem through \<open>pathlib\<close> and \<open>shutil\<close>. The filesystem is modelled as a tree: a
  node is a regular file with its content or a directory with its entries. A path is
  the list of its components below the root (absolute and normalised, no symbolic
  links); the empty list is the root. There are no permissions, no devices and no disk
  quota. The single-step primitives either complete or raise and leave the tree as it
  was; \<open>copytree\<close>, which works entry by entry, can raise after it has written.
\<close>

type_synonym path = "string list"

datatype node = File string | Dir "(string \<times> node) list"

datatype exn =
    FileNotFoundError | FileExistsError | IsADirectoryError | NotADirectoryError
  | SameFileError | ShutilError | OSError | RecursionError | AttributeError

text \<open>\<open>Path.name\<close>: the last component, the empty string for the root.\<close>

definition name :: "path \<Rightarrow> string" where
  "name p = (if p = [] then [] else last p)"

fun lookup :: "node \<Rightarrow> path \<Rightarrow> node option" where
  "lookup n [] = Some n"
| "lookup (File d) (c # cs) = None"
| "lookup (Dir kids) (c # cs) =
     (case map_of kids c of None \<Rightarrow> None | Some k \<Rightarrow> lookup k cs)"

text \<open>\<open>Path.exists()\<close> and \<open>Path.is_dir()\<close>.\<close>

definition exists :: "node \<Rightarrow> path \<Rightarrow> bool" where
  "exists fs p = (lookup fs p \<noteq> None)"

definition is_dir :: "node \<Rightarrow> path \<Rightarrow> bool" where
  "is_dir fs p = (case lookup fs p of Some (Dir kids) \<Rightarrow> True | _ \<Rightarrow> False)"

text \<open>
  Writing node \<open>n\<close> at a path whose parent is an existing directory (an entry of that
  name is replaced), and detaching the entry at a path. Both give \<open>None\<close> for the root
  and where the parent is missing or is a file.
\<close>

fun store :: "node \<Rightarrow> path \<Rightarrow> node \<Rightarrow> node option" where
  "store t [] n = None"
| "store (File d) (c # cs) n = None"
| "store (Dir kids) [c] n = Some (Dir (AList.update c n kids))"
| "store (Dir kids) (c # cs) n =
     (case map_of kids c of
        None \<Rightarrow> None
      | Some k \<Rightarrow>
          (case store k cs n of
             None \<Rightarrow> None
           | Some k' \<Rightarrow> Some (Dir (AList.update c k' kids))))"

fun remove :: "node \<Rightarrow> path \<Rightarrow> node option" where
  "remove t [] = None"
| "remove (File d) (c # cs) = None"
| "remove (Dir kids) [c] =
     (case map_of kids c of
        None \<Rightarrow> None
      | Some k \<Rightarrow> Some (Dir (AList.delete c kids)))"
| "remove (Dir kids) (c # cs) =
     (case map_of kids c of
        None \<Rightarrow> None
      | Some k \<Rightarrow>
          (case remove k cs of
             None \<Rightarrow> None
           | Some k' \<Rightarrow> Some (Dir (AList.update c k' kids))))"

text \<open>
  As \<open>store\<close>, but missing ancestors are created as directories (\<open>os.makedirs\<close>, which
  \<open>shutil.copytree\<close> calls on its destination); \<open>None\<close> where an ancestor is a file.
\<close>

fun store_parents :: "node \<Rightarrow> path \<Rightarrow> node \<Rightarrow> node option" where
  "store_parents t [] n = None"
| "store_parents (File d) (c # cs) n = None"
| "store_parents (Dir kids) [c] n = Some (Dir (AList.update c n kids))"
| "store_parents (Dir kids) (c # cs) n =
     (case store_parents (case map_of kids c of None \<Rightarrow> Dir [] | Some k \<Rightarrow> k) cs n of
        None \<Rightarrow> None
      | Some k' \<Rightarrow> Some (Dir (AList.update c k' kids)))"

text \<open>\<open>Path.unlink()\<close>: removes a file; raises on a missing path and on a directory.\<close>

definition unlink :: "node \<Rightarrow> path \<Rightarrow> exn + node" where
  "unlink fs p =
     (case lookup fs p of
        None \<Rightarrow> Inl FileNotFoundError
      | Some (Dir kids) \<Rightarrow> Inl IsADirectoryError
      | Some (File d) \<Rightarrow>
          (case remove fs p of None \<Rightarrow> Inl OSError | Some fs' \<Rightarrow> Inr fs'))"

text \<open>
  \<open>shutil.rmtree(path)\<close>: removes a directory with everything below it; raises on a
  missing path, on a file and on the root.
\<close>

definition rmtree :: "node \<Rightarrow> path \<Rightarrow> exn + node" where
  "rmtree fs p =
     (case lookup fs p of
        None \<Rightarrow> Inl FileNotFoundError
      | Some (File d) \<Rightarrow> Inl NotADirectoryError
      | Some (Dir kids) \<Rightarrow>
          (case remove fs p of None \<Rightarrow> Inl OSError | Some fs' \<Rightarrow> Inr fs'))"

text \<open>\<open>Path.rmdir()\<close>: removes a directory only if it has no entries.\<close>

definition rmdir :: "node \<Rightarrow> path \<Rightarrow> exn + node" where
  "rmdir fs p =
     (case lookup fs p of
        None \<Rightarrow> Inl FileNotFoundError
      | Some (File d) \<Rightarrow> Inl NotADirectoryError
      | Some (Dir kids) \<Rightarrow>
          if kids \<noteq> [] then Inl OSError
          else (case remove fs p of None \<Rightarrow> Inl OSError | Some fs' \<Rightarrow> Inr fs'))"

text \<open>
  \<open>shutil.copy2(src, dst)\<close>: \<open>src\<close> must be a regular file. When \<open>dst\<close> is a directory
  the copy goes into it under the name of \<open>src\<close>; an existing file is overwritten;
  copying a file onto itself raises \<open>SameFileError\<close>.
\<close>

definition copy2 :: "node \<Rightarrow> path \<Rightarrow> path \<Rightarrow> exn + node" where
  "copy2 fs src dst =
     (let target = (if is_dir fs dst then dst @ [name src] else dst) in
      case lookup fs src of
        None \<Rightarrow> Inl FileNotFoundError
      | Some (Dir kids) \<Rightarrow> Inl IsADirectoryError
      | Some (File d) \<Rightarrow>
          if target = src then Inl SameFileError
          else if is_dir fs target then Inl IsADirectoryError
          else (case store fs target (File d) of
                  None \<Rightarrow> Inl FileNotFoundError
                | Some fs' \<Rightarrow> Inr fs'))"

text \<open>
  \<open>shutil.copytree(src, dst)\<close> with \<open>dirs_exist_ok=False\<close>: lists \<open>src\<close> (which must be
  a directory), creates \<open>dst\<close> with its missing ancestors (\<open>dst\<close> must not exist), then
  copies the listed entries, and raises at the end if an entry failed. Nothing is
  rolled back: the result carries the exception, if any, beside the filesystem the call
  leaves. A call that raises before \<open>os.makedirs\<close> has created \<open>dst\<close> (missing source,
  source a file, existing \<open>dst\<close>, a file among the ancestors of \<open>dst\<close>) leaves the
  filesystem as it was. When \<open>dst\<close> lies inside \<open>src\<close> below an entry that was listed,
  the copy descends into its own output and never completes: Python ends it with an
  exception (\<open>RecursionError\<close>, or \<open>shutil.Error\<close> once a name is too long), after
  \<open>dst\<close> was created. The model keeps what every such run leaves, the directory \<open>dst\<close>
  with its ancestors; what the copy wrote below \<open>dst\<close> before it was stopped depends on
  the limits of the interpreter and is left out, and no statement below speaks of the
  content of that directory.
\<close>

definition copytree :: "node \<Rightarrow> path \<Rightarrow> path \<Rightarrow> exn option \<times> node" where
  "copytree fs src dst =
     (case lookup fs src of
        None \<Rightarrow> (Some FileNotFoundError, fs)
      | Some (File d) \<Rightarrow> (Some NotADirectoryError, fs)
      | Some (Dir kids) \<Rightarrow>
          if exists fs dst then (Some FileExistsError, fs)
          else if strict_prefix src dst \<and> is_dir fs (take (Suc (length src)) dst) then
            (case store_parents fs dst (Dir []) of
               None \<Rightarrow> (Some NotADirectoryError, fs)
             | Some fs' \<Rightarrow> (Some RecursionError, fs'))
          else
            (case store_parents fs dst (Dir kids) of
               None \<Rightarrow> (Some NotADirectoryError, fs)
             | Some fs' \<Rightarrow> (None, fs')))"

text \<open>
  \<open>os.rename(src, dst)\<close> (POSIX), which \<open>Path.rename\<close> calls: a file replaces a file,
  a directory replaces an empty directory, nothing moves below itself.
\<close>

definition rename :: "node \<Rightarrow> path \<Rightarrow> path \<Rightarrow> exn + node" where
  "rename fs src dst =
     (case lookup fs src of
        None \<Rightarrow> Inl FileNotFoundError
      | Some n \<Rightarrow>
          if src = dst then Inr fs
          else if strict_prefix src dst then
            Inl (case n of File d \<Rightarrow> NotADirectoryError | Dir kids \<Rightarrow> OSError)
          else
            (case (n, lookup fs dst) of
               (File d, Some (Dir kids')) \<Rightarrow> Inl IsADirectoryError
             | (Dir kids, Some (File d')) \<Rightarrow> Inl NotADirectoryError
             | (Dir kids, Some (Dir (e # kids'))) \<Rightarrow> Inl OSError
             | _ \<Rightarrow>
                 (case remove fs src of
                    None \<Rightarrow> Inl OSError
                  | Some fs1 \<Rightarrow>
                      (case store fs1 dst n of
                         None \<Rightarrow> Inl FileNotFoundError
                       | Some fs2 \<Rightarrow> Inr fs2))))"

text \<open>
  \<open>shutil.move(src, dst)\<close>: into \<open>dst\<close> when \<open>dst\<close> is a directory (the name must be
  free there), by \<open>os.rename\<close> where that works, else by copying and removing the source.
  A directory is not moved into itself, so \<open>copytree\<close> is called only with a
  destination outside the source, where it raises only before it has written anything.
\<close>

definition move :: "node \<Rightarrow> path \<Rightarrow> path \<Rightarrow> exn + node" where
  "move fs src dst =
     (let into = (is_dir fs dst \<and> src \<noteq> dst);
          real_dst = (if into then dst @ [name src] else dst) in
      if into \<and> exists fs real_dst then Inl ShutilError
      else
        (case rename fs src real_dst of
           Inr fs' \<Rightarrow> Inr fs'
         | Inl e \<Rightarrow>
             if is_dir fs src then
               (if prefix src dst then Inl ShutilError
                else (case copytree fs src real_dst of
                        (Some e', fs1) \<Rightarrow> Inl e'
                      | (None, fs1) \<Rightarrow> rmtree fs1 src))
             else
               (case copy2 fs src real_dst of
                  Inl e' \<Rightarrow> Inl e'
                | Inr fs1 \<Rightarrow> unlink fs1 src)))"

text \<open>\<open>Path.mkdir(exist_ok=True)\<close>: the parent must exist; an existing directory is kept.\<close>

definition mkdir_exist_ok :: "node \<Rightarrow> path \<Rightarrow> exn + node" where
  "mkdir_exist_ok fs p =
     (case lookup fs p of
        Some (Dir kids) \<Rightarrow> Inr fs
      | Some (File d) \<Rightarrow> Inl FileExistsError
      | None \<Rightarrow>
          (case store fs p (Dir []) of
             None \<Rightarrow> Inl FileNotFoundError
           | Some fs' \<Rightarrow> Inr fs'))"

text \<open>The names of the entries of a directory (\<open>os.listdir\<close>); none where there is no directory.\<close>

definition listdir :: "node \<Rightarrow> path \<Rightarrow> string list" where
  "listdir fs p =
     (case lookup fs p of Some (Dir kids) \<Rightarrow> remdups (map fst kids) | _ \<Rightarrow> [])"


section \<open>FileOperations.delete_file\<close>

text \<open>
  \<open>FileOperations.delete_file\<close> (src/core/file_ops.py): \<open>rmtree\<close> for a directory, else
  \<open>unlink\<close>; every exception becomes the result \<open>False\<close>.
\<close>

definition delete_file :: "path \<Rightarrow> node \<Rightarrow> bool \<times> node" where
  "delete_file p fs =
     (case (if is_dir fs p then rmtree fs p else unlink fs p) of
        Inl e \<Rightarrow> (False, fs)
      | Inr fs' \<Rightarrow> (True, fs'))"

section \<open>UndoManager\<close>

datatype ActionType = COPY | MOVE | DELETE | MKDIR | RENAME

record UndoAction =
  action_type :: ActionType
  source :: path
  destination :: "path option"
  backup_path :: "path option"

text \<open>
  The manager's fields. \<open>backup_dir\<close> is fixed at construction as
  \<open>tempfile.gettempdir() / "mocommander_undo"\<close>; the record keeps the temporary
  directory it was built from. \<open>max_history\<close> is a Python \<open>int\<close>.
\<close>

record manager =
  history :: "UndoAction list"
  max_history :: int
  tempdir :: path

definition backup_dir :: "manager \<Rightarrow> path" where
  "backup_dir m = tempdir m @ [''mocommander_undo'']"

text \<open>\<open>__init__\<close>: an empty history, and the backup directory created if it is not there.\<close>

definition init :: "int \<Rightarrow> path \<Rightarrow> node \<Rightarrow> exn + manager \<times> node" where
  "init mh tmp fs =
     (let m = \<lparr>history = [], max_history = mh, tempdir = tmp\<rparr> in
      case mkdir_exist_ok fs (backup_dir m) of
        Inl e \<Rightarrow> Inl e
      | Inr fs' \<Rightarrow> Inr (m, fs'))"

text \<open>\<open>str(n)\<close> for a length: the decimal digits of a natural number.\<close>

definition digit_char :: "nat \<Rightarrow> char" where
  "digit_char d = ''0123456789'' ! d"

function str_nat :: "nat \<Rightarrow> string" where
  "str_nat n = (if n < 10 then [digit_char n] else str_nat (n div 10) @ [digit_char (n mod 10)])"
  by pat_completeness auto
termination
  by (relation "measure id") auto

declare str_nat.simps [simp del]

text \<open>
  \<open>_add_action\<close>: append; when the history is longer than \<open>max_history\<close>, pop the oldest
  entry and remove its backup if it has one that exists. The list is not empty after
  the append, so \<open>hd\<close> and \<open>tl\<close> are \<open>pop(0)\<close>. An exception of the cleanup leaves the
  method after the history was updated: the result carries it beside the state.
\<close>

definition add_action :: "UndoAction \<Rightarrow> manager \<Rightarrow> node \<Rightarrow> exn option \<times> manager \<times> node" where
  "add_action action m fs =
     (let h = history m @ [action] in
      if int (length h) > max_history m then
        (let oldest = hd h; m' = m\<lparr>history := tl h\<rparr> in
         case backup_path oldest of
           None \<Rightarrow> (None, m', fs)
         | Some b \<Rightarrow>
             if exists fs b then
               (case (if is_dir fs b then rmtree fs b else unlink fs b) of
                  Inl e \<Rightarrow> (Some e, m', fs)
                | Inr fs' \<Rightarrow> (None, m', fs'))
             else (None, m', fs))
      else (None, m\<lparr>history := h\<rparr>, fs))"

definition record_copy :: "path \<Rightarrow> path \<Rightarrow> manager \<Rightarrow> node \<Rightarrow> exn option \<times> manager \<times> node" where
  "record_copy src dst m fs =
     add_action \<lparr>action_type = COPY, source = src, destination = Some dst, backup_path = None\<rparr> m fs"

definition record_move :: "path \<Rightarrow> path \<Rightarrow> manager \<Rightarrow> node \<Rightarrow> exn option \<times> manager \<times> node" where
  "record_move src dst m fs =
     add_action \<lparr>action_type = MOVE, source = src, destination = Some dst, backup_path = None\<rparr> m fs"

text \<open>
  \<open>record_delete\<close>: the backup is named by the current length of the history and the
  name of the path. Everything is inside one \<open>try\<close>, so an exception of the copy or of
  \<open>_add_action\<close> gives \<open>False\<close>; the \<open>except\<close> branch cleans nothing up. \<open>backup_copy\<close>
  is the copy the \<open>try\<close> block starts with: \<open>copytree\<close> for a directory, else \<open>copy2\<close>,
  with the exception it raised, if any, and the filesystem it leaves.
\<close>

definition backup_name :: "manager \<Rightarrow> path \<Rightarrow> string" where
  "backup_name m p = str_nat (length (history m)) @ ''_'' @ name p"

definition delete_action :: "manager \<Rightarrow> path \<Rightarrow> UndoAction" where
  "delete_action m p =
     \<lparr>action_type = DELETE, source = p, destination = None,
      backup_path = Some (backup_dir m @ [backup_name m p])\<rparr>"

definition backup_copy :: "path \<Rightarrow> manager \<Rightarrow> node \<Rightarrow> exn option \<times> node" where
  "backup_copy p m fs =
     (let bp = backup_dir m @ [backup_name m p] in
      if is_dir fs p then copytree fs p bp
      else (case copy2 fs p bp of
              Inl e \<Rightarrow> (Some e, fs)
            | Inr fs1 \<Rightarrow> (None, fs1)))"

definition record_delete :: "path \<Rightarrow> manager \<Rightarrow> node \<Rightarrow> bool \<times> manager \<times> node" where
  "record_delete p m fs =
     (case backup_copy p m fs of
        (Some e, fs1) \<Rightarrow> (False, m, fs1)
      | (None, fs1) \<Rightarrow>
          (case add_action (delete_action m p) m fs1 of
             (None, m', fs') \<Rightarrow> (True, m', fs')
           | (Some e, m', fs') \<Rightarrow> (False, m', fs')))"

definition record_mkdir :: "path \<Rightarrow> manager \<Rightarrow> node \<Rightarrow> exn option \<times> manager \<times> node" where
  "record_mkdir p m fs =
     add_action \<lparr>action_type = MKDIR, source = p, destination = None, backup_path = None\<rparr> m fs"

definition record_rename :: "path \<Rightarrow> path \<Rightarrow> manager \<Rightarrow> node \<Rightarrow> exn option \<times> manager \<times> node" where
  "record_rename old_path new_path m fs =
     add_action \<lparr>action_type = RENAME, source = old_path, destination = Some new_path,
       backup_path = None\<rparr> m fs"

definition can_undo :: "manager \<Rightarrow> bool" where
  "can_undo m = (length (history m) > 0)"

text \<open>
  The \<open>try\<close> block of \<open>undo\<close>, by the kind of the popped action: it returns
  \<open>(success, message)\<close> or raises, and changes the filesystem. A \<open>destination\<close> that is
  \<open>None\<close> raises \<open>AttributeError\<close> at \<open>.exists()\<close>. The text of an exception,
  \<open>str(e)\<close>, is modelled by the name of its class.
\<close>

definition exn_str :: "exn \<Rightarrow> string" where
  "exn_str e =
     (case e of
        FileNotFoundError \<Rightarrow> ''FileNotFoundError''
      | FileExistsError \<Rightarrow> ''FileExistsError''
      | IsADirectoryError \<Rightarrow> ''IsADirectoryError''
      | NotADirectoryError \<Rightarrow> ''NotADirectoryError''
      | SameFileError \<Rightarrow> ''SameFileError''
      | ShutilError \<Rightarrow> ''Error''
      | OSError \<Rightarrow> ''OSError''
      | RecursionError \<Rightarrow> ''RecursionError''
      | AttributeError \<Rightarrow> ''AttributeError'')"

definition undo_copy :: "UndoAction \<Rightarrow> node \<Rightarrow> (exn + bool \<times> string) \<times> node" where
  "undo_copy action fs =
     (case destination action of
        None \<Rightarrow> (Inl AttributeError, fs)
      | Some d \<Rightarrow>
          if exists fs d then
            (case (if is_dir fs d then rmtree fs d else unlink fs d) of
               Inl e \<Rightarrow> (Inl e, fs)
             | Inr fs' \<Rightarrow> (Inr (True, ''Undid copy: removed '' @ name d), fs'))
          else (Inr (True, ''Undid copy: removed '' @ name d), fs))"

definition undo_move :: "UndoAction \<Rightarrow> node \<Rightarrow> (exn + bool \<times> string) \<times> node" where
  "undo_move action fs =
     (case destination action of
        None \<Rightarrow> (Inl AttributeError, fs)
      | Some d \<Rightarrow>
          if exists fs d then
            (case move fs d (source action) of
               Inl e \<Rightarrow> (Inl e, fs)
             | Inr fs' \<Rightarrow> (Inr (True, ''Undid move: restored '' @ name (source action)), fs'))
          else (Inr (False, ''Cannot undo: '' @ name d @ '' no longer exists''), fs))"

definition undo_delete :: "UndoAction \<Rightarrow> node \<Rightarrow> (exn + bool \<times> string) \<times> node" where
  "undo_delete action fs =
     (case backup_path action of
        None \<Rightarrow> (Inr (False, ''Cannot undo: backup not found''), fs)
      | Some b \<Rightarrow>
          if exists fs b then
            (if is_dir fs b then
               (case copytree fs b (source action) of
                  (Some e, fs1) \<Rightarrow> (Inl e, fs1)
                | (None, fs1) \<Rightarrow>
                    (case rmtree fs1 b of
                       Inl e \<Rightarrow> (Inl e, fs1)
                     | Inr fs2 \<Rightarrow>
                         (Inr (True, ''Undid delete: restored '' @ name (source action)), fs2)))
             else
               (case copy2 fs b (source action) of
                  Inl e \<Rightarrow> (Inl e, fs)
                | Inr fs1 \<Rightarrow>
                    (case unlink fs1 b of
                       Inl e \<Rightarrow> (Inl e, fs1)
                     | Inr fs2 \<Rightarrow>
                         (Inr (True, ''Undid delete: restored '' @ name (source action)), fs2))))
          else (Inr (False, ''Cannot undo: backup not found''), fs))"

definition undo_mkdir :: "UndoAction \<Rightarrow> node \<Rightarrow> (exn + bool \<times> string) \<times> node" where
  "undo_mkdir action fs =
     (if exists fs (source action) \<and> is_dir fs (source action) then
        (case rmdir fs (source action) of
           Inr fs' \<Rightarrow> (Inr (True, ''Undid mkdir: removed '' @ name (source action)), fs')
         | Inl e \<Rightarrow> (Inr (False, ''Cannot undo: '' @ name (source action) @ '' is not empty''), fs))
      else (Inr (False, ''Cannot undo: '' @ name (source action) @ '' no longer exists''), fs))"

definition undo_rename :: "UndoAction \<Rightarrow> node \<Rightarrow> (exn + bool \<times> string) \<times> node" where
  "undo_rename action fs =
     (case destination action of
        None \<Rightarrow> (Inl AttributeError, fs)
      | Some d \<Rightarrow>
          if exists fs d then
            (case rename fs d (source action) of
               Inl e \<Rightarrow> (Inl e, fs)
             | Inr fs' \<Rightarrow> (Inr (True, ''Undid rename: restored '' @ name (source action)), fs'))
          else (Inr (False, ''Cannot undo: '' @ name d @ '' no longer exists''), fs))"

definition undo_try :: "UndoAction \<Rightarrow> node \<Rightarrow> (exn + bool \<times> string) \<times> node" where
  "undo_try action fs =
     (case action_type action of
        COPY \<Rightarrow> undo_copy action fs
      | MOVE \<Rightarrow> undo_move action fs
      | DELETE \<Rightarrow> undo_delete action fs
      | MKDIR \<Rightarrow> undo_mkdir action fs
      | RENAME \<Rightarrow> undo_rename action fs)"

text \<open>
  The reversal of one action as \<open>undo\<close> reports it: \<open>except Exception\<close> turns an
  exception of the \<open>try\<close> block into \<open>(False, "Undo failed: ...")\<close>.
\<close>

definition reverse_action :: "UndoAction \<Rightarrow> node \<Rightarrow> (bool \<times> string) \<times> node" where
  "reverse_action action fs =
     (case undo_try action fs of
        (Inl e, fs') \<Rightarrow> ((False, ''Undo failed: '' @ exn_str e), fs')
      | (Inr r, fs') \<Rightarrow> (r, fs'))"

text \<open>\<open>undo\<close>: nothing to do on an empty history; else the tail is popped, then reversed.\<close>

definition undo :: "manager \<Rightarrow> node \<Rightarrow> (bool \<times> string) \<times> manager \<times> node" where
  "undo m fs =
     (if history m = [] then ((False, ''Nothing to undo''), m, fs)
      else
        (let action = last (history m);
             m' = m\<lparr>history := butlast (history m)\<rparr>;
             (r, fs') = reverse_action action fs
         in (r, m', fs')))"

text \<open>
  \<open>cleanup\<close>: \<open>shutil.rmtree(backup_dir, ignore_errors=True)\<close> when the path exists; no
  field of the manager is assigned.
\<close>

definition cleanup :: "manager \<Rightarrow> node \<Rightarrow> manager \<times> node" where
  "cleanup m fs =
     (if exists fs (backup_dir m) then
        (case rmtree fs (backup_dir m) of
           Inl e \<Rightarrow> (m, fs)
         | Inr fs' \<Rightarrow> (m, fs'))
      else (m, fs))"

text \<open>
  A run of recording calls: each call that reaches \<open>_add_action\<close> pushes its action on
  the filesystem it finds at that moment, whatever happened to the files in between.
\<close>

fun record_all :: "(UndoAction \<times> node) list \<Rightarrow> manager \<Rightarrow> manager" where
  "record_all [] m = m"
| "record_all ((a, fs) # rest) m = record_all rest (fst (snd (add_action a m fs)))"


section \<open>Sample states\<close>

text \<open>
  A small filesystem with the backup directory in place, a manager as \<open>__init__\<close>
  leaves it, and the states the examples below run on.
\<close>

definition ex_fs :: node where
  "ex_fs = Dir [(''tmp'', Dir [(''mocommander_undo'', Dir [])]),
                (''home'', Dir [(''a.txt'', File ''alpha''),
                                (''docs'', Dir [(''n.txt'', File ''note'')]),
                                (''new'', Dir [])])]"

definition ex_m :: manager where
  "ex_m = \<lparr>history = [], max_history = 2, tempdir = [''tmp'']\<rparr>"

definition ex_copy :: UndoAction where
  "ex_copy = \<lparr>action_type = COPY, source = [''home'', ''a.txt''],
              destination = Some [''home'', ''b.txt''], backup_path = None\<rparr>"

definition ex_mkdir :: UndoAction where
  "ex_mkdir = \<lparr>action_type = MKDIR, source = [''home'', ''docs''],
               destination = None, backup_path = None\<rparr>"

definition ex_rename :: UndoAction where
  "ex_rename = \<lparr>action_type = RENAME, source = [''home'', ''old''],
                destination = Some [''home'', ''new''], backup_path = None\<rparr>"

text \<open>The sample manager after \<open>record_delete\<close> of \<open>/home/a.txt\<close>, and after the file is deleted.\<close>

definition ex_m2 :: manager where
  "ex_m2 = ex_m\<lparr>history := [\<lparr>action_type = DELETE, source = [''home'', ''a.txt''],
                destination = None,
                backup_path = Some [''tmp'', ''mocommander_undo'', ''0_a.txt'']\<rparr>]\<rparr>"

definition ex_fs2 :: node where
  "ex_fs2 = Dir [(''tmp'', Dir [(''mocommander_undo'', Dir [(''0_a.txt'', File ''alpha'')])]),
                 (''home'', Dir [(''a.txt'', File ''alpha''),
                                 (''docs'', Dir [(''n.txt'', File ''note'')]),
                                 (''new'', Dir [])])]"

definition ex_fs3 :: node where
  "ex_fs3 = Dir [(''tmp'', Dir [(''mocommander_undo'', Dir [(''0_a.txt'', File ''alpha'')])]),
                 (''home'', Dir [(''docs'', Dir [(''n.txt'', File ''note'')]), (''new'', Dir [])])]"

text \<open>The sample manager after \<open>record_delete\<close> of the directory \<open>/home/docs\<close>.\<close>

definition ex_m1 :: manager where
  "ex_m1 = ex_m\<lparr>history := [\<lparr>action_type = DELETE, source = [''home'', ''docs''],
                destination = None,
                backup_path = Some [''tmp'', ''mocommander_undo'', ''0_docs'']\<rparr>]\<rparr>"

definition ex_fs1 :: node where
  "ex_fs1 = Dir [(''tmp'', Dir [(''mocommander_undo'',
                    Dir [(''0_docs'', Dir [(''n.txt'', File ''note'')])])]),
                 (''home'', Dir [(''a.txt'', File ''alpha''),
                                 (''docs'', Dir [(''n.txt'', File ''note'')]),
                                 (''new'', Dir [])])]"

text \<open>A backup directory that still holds the directory \<open>0_x\<close>, with a file below it.\<close>

definition left_fs :: node where
  "left_fs = Dir [(''tmp'', Dir [(''mocommander_undo'',
                     Dir [(''0_x'', Dir [(''sub'', Dir [(''x'', File ''data'')])])])])]"

definition left_m :: manager where
  "left_m = \<lparr>history = [], max_history = 50, tempdir = [''tmp'']\<rparr>"

text \<open>A file inside that leftover directory, and the states after it is recorded and deleted.\<close>

definition left_p :: path where
  "left_p = [''tmp'', ''mocommander_undo'', ''0_x'', ''sub'', ''x'']"

definition left_m1 :: manager where
  "left_m1 = left_m\<lparr>history := [\<lparr>action_type = DELETE, source = left_p, destination = None,
                backup_path = Some [''tmp'', ''mocommander_undo'', ''0_x'']\<rparr>]\<rparr>"

definition left_fs1 :: node where
  "left_fs1 = Dir [(''tmp'', Dir [(''mocommander_undo'',
                     Dir [(''0_x'', Dir [(''sub'', Dir [(''x'', File ''data'')]),
                                         (''x'', File ''data'')])])])]"

definition left_fs2 :: node where
  "left_fs2 = Dir [(''tmp'', Dir [(''mocommander_undo'',
                     Dir [(''0_x'', Dir [(''sub'', Dir []), (''x'', File ''data'')])])])]"

text \<open>Three files of the same name in three directories, and a manager that keeps one entry.\<close>

definition same_fs :: node where
  "same_fs = Dir [(''tmp'', Dir [(''mocommander_undo'', Dir [])]),
                  (''a'', Dir [(''x'', File ''one'')]),
                  (''b'', Dir [(''x'', File ''two'')]),
                  (''c'', Dir [(''x'', File ''three'')])]"

definition same_m :: manager where
  "same_m = \<lparr>history = [], max_history = 1, tempdir = [''tmp'']\<rparr>"

text \<open>The states after the first, after the second and after the third file is recorded.\<close>

definition same_m1 :: manager where
  "same_m1 = same_m\<lparr>history := [\<lparr>action_type = DELETE, source = [''a'', ''x''], destination = None,
                backup_path = Some [''tmp'', ''mocommander_undo'', ''0_x'']\<rparr>]\<rparr>"

definition same_fs1 :: node where
  "same_fs1 = Dir [(''tmp'', Dir [(''mocommander_undo'', Dir [(''0_x'', File ''one'')])]),
                  (''a'', Dir [(''x'', File ''one'')]),
                  (''b'', Dir [(''x'', File ''two'')]),
                  (''c'', Dir [(''x'', File ''three'')])]"

definition same_m2 :: manager where
  "same_m2 = same_m\<lparr>history := [\<lparr>action_type = DELETE, source = [''b'', ''x''], destination = None,
                backup_path = Some [''tmp'', ''mocommander_undo'', ''1_x'']\<rparr>]\<rparr>"

definition same_fs2 :: node where
  "same_fs2 = Dir [(''tmp'', Dir [(''mocommander_undo'', Dir [(''1_x'', File ''two'')])]),
                  (''a'', Dir [(''x'', File ''one'')]),
                  (''b'', Dir [(''x'', File ''two'')]),
                  (''c'', Dir [(''x'', File ''three'')])]"

definition same_m3 :: manager where
  "same_m3 = same_m\<lparr>history := [\<lparr>action_type = DELETE, source = [''c'', ''x''], destination = None,
                backup_path = Some [''tmp'', ''mocommander_undo'', ''1_x'']\<rparr>]\<rparr>"

section \<open>Facts about the filesystem primitives\<close>

lemma remove_lookup: "remove fs p = Some fs' \<Longrightarrow> lookup fs' (p @ r) = None"
  by (induction fs p arbitrary: fs' rule: remove.induct)
     (auto simp: update_conv' delete_conv' split: option.splits)

lemma remove_defined: "lookup fs p = Some n \<Longrightarrow> p \<noteq> [] \<Longrightarrow> \<exists>fs'. remove fs p = Some fs'"
  by (induction fs p rule: remove.induct) (auto split: option.splits)

lemma remove_other:
  "remove fs p = Some fs' \<Longrightarrow> \<not> prefix p q \<Longrightarrow> \<not> prefix q p \<Longrightarrow> lookup fs' q = lookup fs q"
proof (induction fs p arbitrary: fs' q rule: remove.induct)
  case (3 kids c)
  then show ?case by (cases q) (auto simp: update_conv' delete_conv' split: option.splits)
next
  case (4 kids c v va)
  then show ?case by (cases q) (auto simp: update_conv' delete_conv' split: option.splits)
qed auto

lemma is_dir_iff: "is_dir fs p \<longleftrightarrow> (\<exists>kids. lookup fs p = Some (Dir kids))"
  by (auto simp: is_dir_def split: option.splits node.splits)

lemma remove_ancestor:
  "remove fs p = Some fs' \<Longrightarrow> strict_prefix q p \<Longrightarrow> \<exists>kids. lookup fs' q = Some (Dir kids)"
proof (induction fs p arbitrary: fs' q rule: remove.induct)
  case (3 kids c)
  then show ?case by (cases q) (auto simp: update_conv' delete_conv' split: option.splits)
next
  case (4 kids c v va)
  then show ?case by (cases q) (auto simp: update_conv' delete_conv' split: option.splits)
qed auto

lemma store_lookup: "store fs p n = Some fs' \<Longrightarrow> lookup fs' (p @ r) = lookup n r"
  by (induction fs p n arbitrary: fs' rule: store.induct)
     (auto simp: update_conv' split: option.splits)

lemma store_other:
  "store fs p n = Some fs' \<Longrightarrow> \<not> prefix p q \<Longrightarrow> \<not> prefix q p \<Longrightarrow> lookup fs' q = lookup fs q"
proof (induction fs p n arbitrary: fs' q rule: store.induct)
  case (3 kids c n)
  then show ?case by (cases q) (auto simp: update_conv' split: option.splits)
next
  case (4 kids c v va n)
  then show ?case by (cases q) (auto simp: update_conv' split: option.splits)
qed auto

lemma store_defined:
  "p \<noteq> [] \<Longrightarrow> is_dir fs (butlast p) \<Longrightarrow> \<exists>fs'. store fs p n = Some fs'"
  by (induction fs p n rule: store.induct) (auto simp: is_dir_iff split: option.splits if_splits)

lemma store_parents_lookup: "store_parents fs p n = Some fs' \<Longrightarrow> lookup fs' (p @ r) = lookup n r"
  by (induction fs p n arbitrary: fs' rule: store_parents.induct)
     (auto simp: update_conv' split: option.splits)

lemma lookup_empty_dir: "lookup (Dir []) q = (if q = [] then Some (Dir []) else None)"
  by (cases q) auto

lemma store_parents_other:
  "store_parents fs p n = Some fs' \<Longrightarrow> \<not> prefix p q \<Longrightarrow> \<not> prefix q p \<Longrightarrow> lookup fs' q = lookup fs q"
proof (induction fs p n arbitrary: fs' q rule: store_parents.induct)
  case (3 kids c n)
  then show ?case by (cases q) (auto simp: update_conv' split: option.splits)
next
  case (4 kids c v va n)
  then show ?case by (cases q) (auto simp: update_conv' lookup_empty_dir split: option.splits)
qed auto

lemma store_parents_defined:
  "p \<noteq> [] \<Longrightarrow> is_dir fs (butlast p) \<Longrightarrow> \<exists>fs'. store_parents fs p n = Some fs'"
  by (induction fs p n rule: store_parents.induct) (auto simp: is_dir_iff split: option.splits if_splits)

section \<open>Facts about the bounded history\<close>

lemma add_action_history:
  "history (fst (snd (add_action a m fs))) =
     (if max_history m < int (length (history m)) + 1 then tl (history m @ [a]) else history m @ [a])"
  by (auto simp: add_action_def Let_def split: option.splits sum.splits)

lemma add_action_fields:
  "max_history (fst (snd (add_action a m fs))) = max_history m"
  "tempdir (fst (snd (add_action a m fs))) = tempdir m"
  by (auto simp: add_action_def Let_def split: option.splits sum.splits)

lemma add_action_manager:
  "fst (snd (add_action a m fs)) =
     m\<lparr>history := (if max_history m < int (length (history m)) + 1 then tl (history m @ [a]) else history m @ [a])\<rparr>"
  by (auto simp: add_action_def Let_def split: option.splits sum.splits)

lemma add_action_room:
  "int (length (history m)) < max_history m \<Longrightarrow>
     add_action a m fs = (None, m\<lparr>history := history m @ [a]\<rparr>, fs)"
  by (simp add: add_action_def Let_def)

lemma record_all_max: "max_history (record_all steps m) = max_history m"
  by (induction steps arbitrary: m) (auto simp: add_action_fields)

lemma record_all_snoc:
  "record_all (steps @ [(a, fs)]) m = fst (snd (add_action a (record_all steps m) fs))"
  by (induction steps arbitrary: m) auto

lemma bounded_push:
  assumes "length h \<le> M"
  shows "(if int M < int (length h) + 1 then tl (h @ [a]) else h @ [a]) = drop (Suc (length h) - M) (h @ [a])"
proof (cases "length h = M")
  case True
  then have "Suc (length h) - M = Suc 0" by simp
  moreover have "drop (Suc 0) (h @ [a]) = tl (h @ [a])" by (simp only: drop_Suc drop_0)
  ultimately show ?thesis using True by (simp only: ) simp
next
  case False
  with assms have "length h < M" by simp
  then show ?thesis by simp
qed

lemma drop_push:
  "drop (Suc (length (drop (length xs - M) xs)) - M) (drop (length xs - M) xs @ [a])
     = drop (Suc (length xs) - M) (xs @ [a])"
proof (cases "length xs \<le> M")
  case True
  then show ?thesis by simp
next
  case False
  then have lt: "M < length xs" by simp
  then have 1: "Suc (length (drop (length xs - M) xs)) - M = Suc 0" by simp
  have 2: "Suc (length xs) - M = Suc (length xs - M)" using lt by simp
  have 3: "Suc (length xs - M) - length xs = Suc 0 - M" using lt by simp
  have "drop (Suc 0) (drop (length xs - M) xs @ [a]) = drop (Suc (length xs - M)) (xs @ [a])"
    using lt by (simp add: 3)
  then show ?thesis unfolding 1 2 .
qed

lemma record_all_history:
  assumes "0 \<le> max_history m" "int (length (history m)) \<le> max_history m"
  shows "history (record_all steps m) =
           drop (length (history m) + length steps - nat (max_history m)) (history m @ map fst steps)"
  using assms
proof (induction steps rule: rev_induct)
  case Nil
  then show ?case by simp
next
  case (snoc x steps)
  obtain a fs where x: "x = (a, fs)" by (cases x)
  let ?M = "nat (max_history m)"
  let ?xs = "history m @ map fst steps"
  let ?h = "history (record_all steps m)"
  have h: "?h = drop (length ?xs - ?M) ?xs"
    using snoc by simp
  have len: "length ?h \<le> ?M" using snoc.prems by (simp add: h)
  have M: "max_history (record_all steps m) = int ?M" using snoc.prems by (simp add: record_all_max)
  have "history (record_all (steps @ [x]) m) = drop (Suc (length ?h) - ?M) (?h @ [a])"
    unfolding x record_all_snoc add_action_history M using bounded_push [OF len] by simp
  also have "\<dots> = drop (Suc (length ?xs) - ?M) (?xs @ [a])"
    unfolding h by (rule drop_push)
  also have "\<dots> = drop (length (history m) + length (steps @ [x]) - ?M) (history m @ map fst (steps @ [x]))"
    by (simp add: x)
  finally show ?case .
qed

lemma lookup_prefix: "lookup fs (p @ r) = Some n \<Longrightarrow> \<exists>k. lookup fs p = Some k"
  by (induction fs p rule: lookup.induct) (auto split: option.splits)

lemma exists_prefix: "exists fs q \<Longrightarrow> prefix p q \<Longrightarrow> exists fs p"
  using lookup_prefix by (fastforce simp: exists_def prefix_def)

lemma delete_file_ok:
  assumes "delete_file p fs = (True, fs')"
  shows "remove fs p = Some fs'" and "exists fs p"
  using assms
  by (auto simp: delete_file_def rmtree_def unlink_def exists_def
      split: if_splits option.splits node.splits sum.splits)

section \<open>Facts about the manager\<close>

lemma eviction_removes_backup:
  assumes "max_history m < int (length (history m)) + 1"
      and "add_action a m fs = (e, m', fs')"
  shows "history m' = tl (history m @ [a])"
    and "backup_path (hd (history m @ [a])) = Some b \<Longrightarrow> b \<noteq> [] \<Longrightarrow> \<not> exists fs' b"
proof -
  show "history m' = tl (history m @ [a])"
    using assms add_action_history [of a m fs] by simp
  assume b: "backup_path (hd (history m @ [a])) = Some b" "b \<noteq> []"
  show "\<not> exists fs' b"
  proof (cases "lookup fs b")
    case None
    then show ?thesis using assms b by (auto simp: add_action_def Let_def exists_def)
  next
    case (Some n)
    then obtain fs1 where r: "remove fs b = Some fs1" using remove_defined b by blast
    then have "lookup fs1 b = None" using remove_lookup [of fs b fs1 "[]"] by simp
    then show ?thesis using assms b Some r
      by (cases n) (auto simp: add_action_def Let_def exists_def is_dir_def rmtree_def unlink_def)
  qed
qed


lemma add_action_keeps_backups:
  assumes "\<forall>x \<in> set (history m). backup_path x \<noteq> Some []" and "backup_path a \<noteq> Some []"
  shows "\<forall>x \<in> set (history (fst (snd (add_action a m fs)))). backup_path x \<noteq> Some []"
proof -
  have "set (tl (history m @ [a])) \<subseteq> set (history m @ [a])"
    by (auto dest: list.set_sel(2) [rotated])
  then show ?thesis using assms by (auto simp: add_action_history)
qed

lemma record_delete_keeps_backups:
  assumes "\<forall>x \<in> set (history m). backup_path x \<noteq> Some []"
  shows "\<forall>x \<in> set (history (fst (snd (record_delete p m fs)))). backup_path x \<noteq> Some []"
proof -
  obtain r fs1 where c: "backup_copy p m fs = (r, fs1)" by (cases "backup_copy p m fs")
  show ?thesis
  proof (cases r)
    case (Some e)
    then show ?thesis using assms c by (simp add: record_delete_def)
  next
    case None
    have "backup_path (delete_action m p) \<noteq> Some []" by (simp add: delete_action_def)
    from add_action_keeps_backups [OF assms this, of fs1]
    have k: "\<forall>x \<in> set (history (fst (snd (add_action (delete_action m p) m fs1)))).
               backup_path x \<noteq> Some []" .
    have "fst (snd (record_delete p m fs)) = fst (snd (add_action (delete_action m p) m fs1))"
      using None c by (simp add: record_delete_def split: prod.splits option.splits)
    then show ?thesis using k by simp
  qed
qed

lemma undo_nonempty:
  "history m \<noteq> [] \<Longrightarrow>
     undo m fs = (fst (reverse_action (last (history m)) fs),
                  m\<lparr>history := butlast (history m)\<rparr>,
                  snd (reverse_action (last (history m)) fs))"
  by (simp add: undo_def Let_def split: prod.splits)

lemma undo_empty: "history m = [] \<Longrightarrow> undo m fs = ((False, ''Nothing to undo''), m, fs)"
  by (simp add: undo_def)

lemma undo_delete_restores:
  assumes bp: "backup_path a = Some bp" and src: "source a = p"
      and ex: "exists fs bp" and nop: "\<not> exists fs p"
      and p: "p \<noteq> []" and parent: "is_dir fs (butlast p)" and out: "\<not> prefix bp p"
  shows "\<exists>fs'. undo_delete a fs = (Inr (True, ''Undid delete: restored '' @ name p), fs')
              \<and> lookup fs' p = lookup fs bp \<and> lookup fs' bp = None"
proof -
  have inc: "\<not> prefix p bp" using ex nop exists_prefix by blast
  have bpne: "bp \<noteq> []" using out by auto
  have pbp: "p \<noteq> bp" using out by auto
  from ex obtain n where n: "lookup fs bp = Some n" by (auto simp: exists_def)
  show ?thesis
  proof (cases n)
    case (File d)
    obtain fs1 where s: "store fs p (File d) = Some fs1" using store_defined [OF p parent] by blast
    have l1: "lookup fs1 p = Some (File d)" using store_lookup [OF s, of "[]"] by simp
    have "lookup fs1 bp = Some (File d)" using store_other [OF s inc out] n File by simp
    moreover from this obtain fs2 where r: "remove fs1 bp = Some fs2"
      using remove_defined bpne by blast
    moreover have "lookup fs2 bp = None" using remove_lookup [OF r, of "[]"] by simp
    moreover have "lookup fs2 p = Some (File d)" using remove_other [OF r out inc] l1 by simp
    moreover have "\<not> is_dir fs p" "lookup fs p = None" using nop by (auto simp: is_dir_def exists_def)
    ultimately show ?thesis using bp src ex n File s pbp
      by (simp add: undo_delete_def is_dir_def copy2_def unlink_def Let_def)
  next
    case (Dir kids)
    obtain fs1 where s: "store_parents fs p (Dir kids) = Some fs1"
      using store_parents_defined [OF p parent] by blast
    have l1: "lookup fs1 p = Some (Dir kids)" using store_parents_lookup [OF s, of "[]"] by simp
    have "lookup fs1 bp = Some (Dir kids)" using store_parents_other [OF s inc out] n Dir by simp
    moreover from this obtain fs2 where r: "remove fs1 bp = Some fs2"
      using remove_defined bpne by blast
    moreover have "lookup fs2 bp = None" using remove_lookup [OF r, of "[]"] by simp
    moreover have "lookup fs2 p = Some (Dir kids)" using remove_other [OF r out inc] l1 by simp
    moreover have "\<not> strict_prefix bp p" using out by (simp add: strict_prefix_def)
    ultimately show ?thesis using bp src ex nop n Dir s
      by (simp add: undo_delete_def is_dir_def copytree_def rmtree_def)
  qed
qed


lemma record_delete_tail:
  assumes "record_delete p m fs = (True, m1, fs1)" and "1 \<le> max_history m"
  shows "history m1 \<noteq> []" and "last (history m1) = delete_action m p"
    and "m1 = m\<lparr>history := history m1\<rparr>"
proof -
  obtain fs0 where "add_action (delete_action m p) m fs0 = (None, m1, fs1)"
    using assms(1)
    by (auto simp: record_delete_def split: prod.splits option.splits)
  then have "m1 = fst (snd (add_action (delete_action m p) m fs0))" by simp
  then have h: "history m1 = (if max_history m < int (length (history m)) + 1
        then tl (history m @ [delete_action m p]) else history m @ [delete_action m p])"
    and m: "m1 = m\<lparr>history := history m1\<rparr>"
    by (simp_all add: add_action_history add_action_manager)
  show "m1 = m\<lparr>history := history m1\<rparr>" by (rule m)
  show "history m1 \<noteq> []" using h assms(2) by (cases "history m") auto
  show "last (history m1) = delete_action m p" using h assms(2) by (cases "history m") auto
qed

lemma record_delete_backup:
  assumes rd: "record_delete p m fs = (True, m1, fs1)"
      and free: "\<not> exists fs (backup_dir m @ [backup_name m p])"
      and room: "int (length (history m)) < max_history m"
  shows "lookup fs1 (backup_dir m @ [backup_name m p]) = lookup fs p" and "exists fs p"
proof -
  let ?bp = "backup_dir m @ [backup_name m p]"
  have nd: "\<not> is_dir fs ?bp" using free by (auto simp: is_dir_def exists_def)
  have "lookup fs1 ?bp = lookup fs p \<and> exists fs p"
  proof (cases "lookup fs p")
    case None
    then show ?thesis using rd
      by (simp add: record_delete_def backup_copy_def is_dir_def copy2_def Let_def)
  next
    case (Some n)
    show ?thesis
    proof (cases n)
      case (File d)
      then show ?thesis using rd Some nd free store_lookup [of fs ?bp "File d" _ "[]"]
        by (auto simp: record_delete_def backup_copy_def is_dir_def copy2_def Let_def exists_def
            add_action_room [OF room] split: option.splits if_splits)
    next
      case (Dir kids)
      then show ?thesis using rd Some free store_parents_lookup [of fs ?bp "Dir kids" _ "[]"]
        by (auto simp: record_delete_def backup_copy_def is_dir_def copytree_def Let_def
            exists_def add_action_room [OF room] split: option.splits if_splits)
    qed
  qed
  then show "lookup fs1 ?bp = lookup fs p" and "exists fs p" by simp_all
qed


section \<open>Evaluating the model\<close>

lemma str_nat_digit: "n < 10 \<Longrightarrow> str_nat n = [digit_char n]"
  by (simp add: str_nat.simps)

lemmas fs_defs = name_def exists_def is_dir_def unlink_def rmtree_def rmdir_def copy2_def
  copytree_def delete_file_def backup_dir_def backup_name_def delete_action_def
  str_nat_digit digit_char_def Let_def

lemmas manager_defs = add_action_def backup_copy_def record_delete_def undo_def
  reverse_action_def undo_try_def
  undo_copy_def undo_move_def undo_delete_def undo_mkdir_def undo_rename_def exn_str_def
  cleanup_def can_undo_def

text \<open>The sample manager and filesystem are what \<open>__init__\<close> returns.\<close>

lemma init_sample: "init 2 [''tmp''] ex_fs = Inr (ex_m, ex_fs)"
  by (simp add: init_def mkdir_exist_ok_def ex_m_def ex_fs_def backup_dir_def)

section \<open>The claims\<close>

subsection \<open>C1: deleting and undoing the delete\<close>

text \<open>
  Claim C1, as the code has it. Let \<open>record_delete\<close> of a path return \<open>True\<close> on a
  manager with \<open>max_history\<close> at least 1, so that the new Delete entry is the tail of the
  history; let \<open>delete_file\<close> then remove the path; and let the path not lie at or below
  its own backup path. Then \<open>undo\<close> pops that entry and
  \<^item> if the backup exists, returns \<open>(True, "Undid delete: restored <name>")\<close>, leaves at
    the path exactly what was at the backup path, and the backup path no longer exists;
  \<^item> on any filesystem where the backup does not exist, returns
    \<open>(False, "Cannot undo: backup not found")\<close> and changes nothing on disk.
  Moreover, when nothing was at the backup path before the call, the history had room and
  the path is not an ancestor of the backup path, the backup exists after the delete and
  holds what the path held, so the content comes back unchanged.
\<close>

theorem delete_undo_roundtrip:
  assumes rd: "record_delete p m fs = (True, m1, fs1)"
      and mh: "1 \<le> max_history m"
      and del: "delete_file p fs1 = (True, fs2)"
      and out: "\<not> prefix (backup_dir m @ [backup_name m p]) p"
  shows "history m1 \<noteq> [] \<and> last (history m1) = delete_action m p
       \<and> (exists fs2 (backup_dir m @ [backup_name m p]) \<longrightarrow>
            (\<exists>fs3. undo m1 fs2 = ((True, ''Undid delete: restored '' @ name p),
                                  m1\<lparr>history := butlast (history m1)\<rparr>, fs3)
                 \<and> lookup fs3 p = lookup fs2 (backup_dir m @ [backup_name m p])
                 \<and> \<not> exists fs3 (backup_dir m @ [backup_name m p])))
       \<and> (\<forall>g. \<not> exists g (backup_dir m @ [backup_name m p]) \<longrightarrow>
            undo m1 g = ((False, ''Cannot undo: backup not found''),
                         m1\<lparr>history := butlast (history m1)\<rparr>, g))
       \<and> (\<not> exists fs (backup_dir m @ [backup_name m p]) \<and> int (length (history m)) < max_history m
            \<and> \<not> prefix p (backup_dir m @ [backup_name m p]) \<longrightarrow>
            exists fs2 (backup_dir m @ [backup_name m p])
          \<and> lookup fs2 (backup_dir m @ [backup_name m p]) = lookup fs p)"
proof -
  let ?bp = "backup_dir m @ [backup_name m p]"
  let ?a = "delete_action m p"
  note tail = record_delete_tail [OF rd mh]
  have a: "action_type ?a = DELETE" "backup_path ?a = Some ?bp" "source ?a = p"
    by (simp_all add: delete_action_def)
  have r: "remove fs1 p = Some fs2" and e1: "exists fs1 p" using delete_file_ok [OF del] by auto
  have p: "p \<noteq> []" using r by (cases p) auto
  have gone: "\<not> exists fs2 p" using remove_lookup [OF r, of "[]"] by (simp add: exists_def)
  have "strict_prefix (butlast p) p" using p by (cases p rule: rev_cases) (auto simp: strict_prefix_def)
  then have parent: "is_dir fs2 (butlast p)" using remove_ancestor [OF r] by (simp add: is_dir_iff)
  have 1: "exists fs2 ?bp \<longrightarrow>
            (\<exists>fs3. undo m1 fs2 = ((True, ''Undid delete: restored '' @ name p),
                                  m1\<lparr>history := butlast (history m1)\<rparr>, fs3)
                 \<and> lookup fs3 p = lookup fs2 ?bp \<and> \<not> exists fs3 ?bp)"
  proof
    assume "exists fs2 ?bp"
    from undo_delete_restores [OF a(2) a(3) this gone p parent out]
    obtain fs3 where "undo_delete ?a fs2 = (Inr (True, ''Undid delete: restored '' @ name p), fs3)"
      "lookup fs3 p = lookup fs2 ?bp" "lookup fs3 ?bp = None" by blast
    then show "\<exists>fs3. undo m1 fs2 = ((True, ''Undid delete: restored '' @ name p),
                                  m1\<lparr>history := butlast (history m1)\<rparr>, fs3)
                 \<and> lookup fs3 p = lookup fs2 ?bp \<and> \<not> exists fs3 ?bp"
      using tail(1,2) a(1)
      by (simp add: undo_def Let_def reverse_action_def undo_try_def exists_def)
  qed
  have 2: "\<forall>g. \<not> exists g ?bp \<longrightarrow>
            undo m1 g = ((False, ''Cannot undo: backup not found''),
                         m1\<lparr>history := butlast (history m1)\<rparr>, g)"
    using tail(1,2) a
    by (simp add: undo_def Let_def reverse_action_def undo_try_def undo_delete_def)
  have 3: "\<not> exists fs ?bp \<and> int (length (history m)) < max_history m \<and> \<not> prefix p ?bp \<longrightarrow>
            exists fs2 ?bp \<and> lookup fs2 ?bp = lookup fs p"
  proof
    assume h: "\<not> exists fs ?bp \<and> int (length (history m)) < max_history m \<and> \<not> prefix p ?bp"
    then have "lookup fs1 ?bp = lookup fs p" "exists fs p"
      using record_delete_backup [OF rd] by auto
    moreover have "lookup fs2 ?bp = lookup fs1 ?bp" using remove_other [OF r] h out by simp
    ultimately show "exists fs2 ?bp \<and> lookup fs2 ?bp = lookup fs p" by (simp add: exists_def)
  qed
  show ?thesis using tail(1,2) 1 2 3 by blast
qed

text \<open>
  The theorem at work: \<open>/home/a.txt\<close> is recorded, deleted and restored with its content.
\<close>

theorem delete_undo_roundtrip_witness:
  "record_delete [''home'', ''a.txt''] ex_m ex_fs = (True, ex_m2, ex_fs2)
   \<and> 1 \<le> max_history ex_m
   \<and> delete_file [''home'', ''a.txt''] ex_fs2 = (True, ex_fs3)
   \<and> \<not> prefix (backup_dir ex_m @ [backup_name ex_m [''home'', ''a.txt'']]) [''home'', ''a.txt'']
   \<and> exists ex_fs3 (backup_dir ex_m @ [backup_name ex_m [''home'', ''a.txt'']])
   \<and> fst (undo ex_m2 ex_fs3) = (True, ''Undid delete: restored a.txt'')
   \<and> lookup (snd (snd (undo ex_m2 ex_fs3))) [''home'', ''a.txt''] = Some (File ''alpha'')
   \<and> \<not> exists (snd (snd (undo ex_m2 ex_fs3)))
          (backup_dir ex_m @ [backup_name ex_m [''home'', ''a.txt'']])"
proof -
  let ?p = "[''home'', ''a.txt'']"
  let ?bp = "backup_dir ex_m @ [backup_name ex_m ?p]"
  have 1: "record_delete ?p ex_m ex_fs = (True, ex_m2, ex_fs2)"
    by (simp add: ex_m_def ex_m2_def ex_fs_def ex_fs2_def fs_defs manager_defs)
  have 2: "1 \<le> max_history ex_m" by (simp add: ex_m_def)
  have 3: "delete_file ?p ex_fs2 = (True, ex_fs3)"
    by (simp add: ex_fs2_def ex_fs3_def fs_defs)
  have 4: "\<not> prefix ?bp ?p" by (simp add: ex_m_def fs_defs)
  have 5: "exists ex_fs3 ?bp" by (simp add: ex_m_def ex_fs3_def fs_defs)
  have 6: "lookup ex_fs3 ?bp = Some (File ''alpha'')" by (simp add: ex_m_def ex_fs3_def fs_defs)
  have 7: "name ?p = ''a.txt''" by (simp add: name_def)
  from delete_undo_roundtrip [OF 1 2 3 4, THEN conjunct2, THEN conjunct2, THEN conjunct1,
      rule_format, OF 5]
  obtain fs3 where u: "undo ex_m2 ex_fs3 = ((True, ''Undid delete: restored '' @ name ?p),
        ex_m2\<lparr>history := butlast (history ex_m2)\<rparr>, fs3)"
    and l: "lookup fs3 ?p = lookup ex_fs3 ?bp" and g: "\<not> exists fs3 ?bp"
    by blast
  have "fst (undo ex_m2 ex_fs3) = (True, ''Undid delete: restored a.txt'')"
    unfolding u fst_conv 7 by simp
  moreover have "lookup (snd (snd (undo ex_m2 ex_fs3))) ?p = Some (File ''alpha'')"
    unfolding u snd_conv l 6 ..
  moreover have "\<not> exists (snd (snd (undo ex_m2 ex_fs3))) ?bp"
    unfolding u snd_conv by (rule g)
  ultimately show ?thesis using 1 2 3 4 5 by blast
qed

text \<open>
  Without the condition on the path the statement of C1 fails. The backup directory
  holds a directory \<open>0_x\<close> and the history is empty; the file \<open>0_x/sub/x\<close> inside it is
  recorded for deletion. The backup name is again \<open>0_x\<close>, \<open>copy2\<close> copies the file into
  that directory and \<open>record_delete\<close> returns \<open>True\<close>; the file is deleted; the backup
  exists, and \<open>undo\<close> calls \<open>copytree\<close> from \<open>0_x\<close> to a path below \<open>0_x\<close>, which
  raises: the result is a failure that is not "backup not found".
\<close>

theorem delete_undo_roundtrip_counterexample:
  "record_delete left_p left_m left_fs = (True, left_m1, left_fs1)
   \<and> delete_file left_p left_fs1 = (True, left_fs2)
   \<and> last (history left_m1) = delete_action left_m left_p
   \<and> exists left_fs2 (backup_dir left_m @ [backup_name left_m left_p])
   \<and> fst (undo left_m1 left_fs2) = (False, ''Undo failed: RecursionError'')
   \<and> fst (snd (undo left_m1 left_fs2)) = left_m"
  by (simp add: left_p_def left_m_def left_m1_def left_fs_def left_fs1_def left_fs2_def
      fs_defs manager_defs)

subsection \<open>C2: undo is last-in first-out\<close>

text \<open>
  Claim C2. On a manager with an empty history and \<open>max_history\<close> at least 3, recording
  \<open>a1\<close>, \<open>a2\<close>, \<open>a3\<close> (each through \<open>_add_action\<close>, on whatever filesystem the call
  finds) gives the history \<open>[a1, a2, a3]\<close>. Four calls of \<open>undo\<close>, on whatever filesystems
  \<open>g1\<close> \<dots> \<open>g4\<close> they find, then reverse \<open>a3\<close>, \<open>a2\<close>, \<open>a1\<close> in this order, each
  popping the tail, and the fourth returns \<open>(False, "Nothing to undo")\<close> with the empty
  history and the filesystem unchanged.
\<close>

theorem undo_is_lifo:
  assumes "history m = []" and "3 \<le> max_history m"
  shows "history (record_all [(a1, f1), (a2, f2), (a3, f3)] m) = [a1, a2, a3]
       \<and> (let m3 = record_all [(a1, f1), (a2, f2), (a3, f3)] m;
               u1 = undo m3 g1;
               u2 = undo (fst (snd u1)) g2;
               u3 = undo (fst (snd u2)) g3;
               u4 = undo (fst (snd u3)) g4
           in (fst u1, snd (snd u1)) = reverse_action a3 g1 \<and> history (fst (snd u1)) = [a1, a2]
            \<and> (fst u2, snd (snd u2)) = reverse_action a2 g2 \<and> history (fst (snd u2)) = [a1]
            \<and> (fst u3, snd (snd u3)) = reverse_action a1 g3 \<and> history (fst (snd u3)) = []
            \<and> u4 = ((False, ''Nothing to undo''), fst (snd u3), g4))"
proof -
  define m3 where "m3 = record_all [(a1, f1), (a2, f2), (a3, f3)] m"
  have h: "history m3 = [a1, a2, a3]"
    unfolding m3_def using assms by (simp add: add_action_history add_action_fields)
  have u1: "undo m3 g1 = (fst (reverse_action a3 g1), m3\<lparr>history := [a1, a2]\<rparr>,
                          snd (reverse_action a3 g1))"
    by (simp add: undo_nonempty h)
  have u2: "undo (m3\<lparr>history := [a1, a2]\<rparr>) g2 =
              (fst (reverse_action a2 g2), m3\<lparr>history := [a1]\<rparr>, snd (reverse_action a2 g2))"
    by (simp add: undo_nonempty)
  have u3: "undo (m3\<lparr>history := [a1]\<rparr>) g3 =
              (fst (reverse_action a1 g3), m3\<lparr>history := []\<rparr>, snd (reverse_action a1 g3))"
    by (simp add: undo_nonempty)
  have u4: "undo (m3\<lparr>history := []\<rparr>) g4 = ((False, ''Nothing to undo''), m3\<lparr>history := []\<rparr>, g4)"
    by (simp add: undo_empty)
  show ?thesis
    unfolding m3_def [symmetric] Let_def u1 fst_conv snd_conv u2 u3 u4 using h by simp
qed

theorem undo_is_lifo_witness:
  "history (ex_m\<lparr>max_history := 3\<rparr>) = [] \<and> 3 \<le> max_history (ex_m\<lparr>max_history := 3\<rparr>)
   \<and> history (record_all [(ex_copy, ex_fs), (ex_mkdir, ex_fs), (ex_rename, ex_fs)]
                 (ex_m\<lparr>max_history := 3\<rparr>)) = [ex_copy, ex_mkdir, ex_rename]"
proof -
  have 1: "history (ex_m\<lparr>max_history := 3\<rparr>) = []" and 2: "3 \<le> max_history (ex_m\<lparr>max_history := 3\<rparr>)"
    by (simp_all add: ex_m_def)
  note t = undo_is_lifo [OF 1 2, of ex_copy ex_fs ex_mkdir ex_fs ex_rename ex_fs, THEN conjunct1]
  show ?thesis using 1 2 t by blast
qed

subsection \<open>C3: the history is bounded and keeps the most recent actions\<close>

text \<open>
  Claim C3. \<open>steps\<close> are the recording calls that reach \<open>_add_action\<close>
  (\<open>record_copy\<close>, \<open>record_move\<close>, \<open>record_mkdir\<close>, \<open>record_rename\<close>, and \<open>record_delete\<close>
  once its backup is made), each with the filesystem it finds. For a manager whose
  \<open>max_history\<close> is a size \<open>M \<ge> 0\<close> and whose history is within it:
  \<^item> after every call the history has at most \<open>M\<close> entries;
  \<^item> the final history is the last \<open>M\<close> entries of the old history followed by the
    recorded actions; with more than \<open>M\<close> calls it has exactly \<open>M\<close> entries, the \<open>M\<close>
    most recently recorded ones in recording order;
  \<^item> whenever a call makes the history too long, the oldest entry is popped and, if it
    has a backup path (other than the root of the filesystem), nothing exists at that
    path after the call.
\<close>

theorem bounded_history:
  assumes "0 \<le> max_history m" and "int (length (history m)) \<le> max_history m"
  shows "(\<forall>k \<le> length steps. int (length (history (record_all (take k steps) m))) \<le> max_history m)
       \<and> history (record_all steps m) =
           drop (length (history m) + length steps - nat (max_history m)) (history m @ map fst steps)
       \<and> (nat (max_history m) < length steps \<longrightarrow>
             length (history (record_all steps m)) = nat (max_history m)
           \<and> history (record_all steps m) = drop (length steps - nat (max_history m)) (map fst steps))
       \<and> (\<forall>a n fs e n' fs'.
             max_history n < int (length (history n)) + 1 \<longrightarrow> add_action a n fs = (e, n', fs') \<longrightarrow>
               history n' = tl (history n @ [a])
             \<and> (\<forall>b. backup_path (hd (history n @ [a])) = Some b \<longrightarrow> b \<noteq> [] \<longrightarrow> \<not> exists fs' b))"
proof (intro conjI allI impI)
  fix k assume "k \<le> length steps"
  show "int (length (history (record_all (take k steps) m))) \<le> max_history m"
    using assms by (simp add: record_all_history [OF assms])
next
  show "history (record_all steps m) =
      drop (length (history m) + length steps - nat (max_history m)) (history m @ map fst steps)"
    by (rule record_all_history [OF assms])
next
  assume "nat (max_history m) < length steps"
  then show "length (history (record_all steps m)) = nat (max_history m)"
    using assms by (simp add: record_all_history [OF assms])
next
  assume "nat (max_history m) < length steps"
  then show "history (record_all steps m) = drop (length steps - nat (max_history m)) (map fst steps)"
    using assms by (simp add: record_all_history [OF assms])
next
  fix a n fs e n' fs'
  assume "max_history n < int (length (history n)) + 1" "add_action a n fs = (e, n', fs')"
  then show "history n' = tl (history n @ [a])" by (rule eviction_removes_backup)
next
  fix a n fs e n' fs' b
  assume "max_history n < int (length (history n)) + 1" "add_action a n fs = (e, n', fs')"
     "backup_path (hd (history n @ [a])) = Some b" "b \<noteq> []"
  then show "\<not> exists fs' b" by (rule eviction_removes_backup)
qed

theorem bounded_history_witness:
  "0 \<le> max_history ex_m \<and> int (length (history ex_m)) \<le> max_history ex_m
   \<and> nat (max_history ex_m) < length [(ex_copy, ex_fs), (ex_mkdir, ex_fs), (ex_rename, ex_fs)]
   \<and> history (record_all [(ex_copy, ex_fs), (ex_mkdir, ex_fs), (ex_rename, ex_fs)] ex_m)
       = [ex_mkdir, ex_rename]"
proof -
  have 1: "0 \<le> max_history ex_m" and 2: "int (length (history ex_m)) \<le> max_history ex_m"
    by (simp_all add: ex_m_def)
  have 3: "nat (max_history ex_m) < length [(ex_copy, ex_fs), (ex_mkdir, ex_fs), (ex_rename, ex_fs)]"
    by (simp add: ex_m_def)
  note t = bounded_history [OF 1 2, of "[(ex_copy, ex_fs), (ex_mkdir, ex_fs), (ex_rename, ex_fs)]",
      THEN conjunct2, THEN conjunct2, THEN conjunct1, rule_format, OF 3, THEN conjunct2]
  have "history (record_all [(ex_copy, ex_fs), (ex_mkdir, ex_fs), (ex_rename, ex_fs)] ex_m)
       = [ex_mkdir, ex_rename]"
    unfolding t by (simp add: ex_m_def)
  then show ?thesis using 1 2 3 by blast
qed

subsection \<open>C4: the backup name after an eviction\<close>

text \<open>
  Claim C4 says that the backup name chosen by \<open>record_delete\<close> never equals the backup
  name of a Delete entry still in the history. The name is the length of the history
  and the file name, and the length stops growing once the history is full. With
  \<open>max_history = 1\<close> and three files named \<open>x\<close>: the first is backed up as \<open>0_x\<close>; the
  second as \<open>1_x\<close>, and the first entry is evicted; the history has length 1 again, so
  the name chosen for the third is \<open>1_x\<close>, the backup of the entry in the history. The
  third call overwrites that backup, returns \<open>True\<close>, evicts the second entry and removes
  the file \<open>1_x\<close> with it: the entry it has just recorded has no backup, and its undo
  reports "backup not found".
\<close>

theorem backup_name_collides:
  "record_delete [''a'', ''x''] same_m same_fs = (True, same_m1, same_fs1)
   \<and> record_delete [''b'', ''x''] same_m1 same_fs1 = (True, same_m2, same_fs2)
   \<and> backup_path (last (history same_m2))
       = Some (backup_dir same_m2 @ [backup_name same_m2 [''c'', ''x'']])
   \<and> record_delete [''c'', ''x''] same_m2 same_fs2 = (True, same_m3, same_fs)
   \<and> \<not> exists same_fs (backup_dir same_m3 @ [''1_x''])
   \<and> undo same_m3 same_fs = ((False, ''Cannot undo: backup not found''), same_m, same_fs)"
  by (simp add: same_m_def same_m1_def same_m2_def same_m3_def same_fs_def same_fs1_def
      same_fs2_def fs_defs manager_defs)

subsection \<open>C5: a backup after a failed undo\<close>

text \<open>
  Claim C5 says that the backup directory never holds more entries than the history
  has Delete entries. \<open>undo\<close> pops the entry before it tries the reversal, and removes
  the backup only after the copy back has succeeded. Here the directory \<open>/home/docs\<close> is
  recorded for deletion and is still there when \<open>undo\<close> runs: \<open>copytree\<close> raises
  \<open>FileExistsError\<close>, \<open>undo\<close> returns a failure, the history is empty and the backup
  \<open>0_docs\<close> stays in the backup directory.
\<close>

theorem failed_undo_leaves_backup:
  "record_delete [''home'', ''docs''] ex_m ex_fs = (True, ex_m1, ex_fs1)
   \<and> undo ex_m1 ex_fs1 = ((False, ''Undo failed: FileExistsError''), ex_m, ex_fs1)
   \<and> listdir ex_fs1 (backup_dir ex_m) = [''0_docs'']
   \<and> length (filter (\<lambda>a. action_type a = DELETE) (history ex_m)) = 0"
  by (simp add: ex_m_def ex_m1_def ex_fs_def ex_fs1_def listdir_def fs_defs manager_defs)

subsection \<open>C6: undo pops exactly the tail\<close>

text \<open>
  Claim C6. On a non-empty history, \<open>undo\<close> returns the manager with the tail entry
  removed and nothing else changed, whatever the filesystem is and whatever the
  reversal returns: the history is one shorter, it is the old history without its last
  entry, and the result and the filesystem are those of reversing that entry.
\<close>

theorem undo_pops_tail:
  assumes "history m \<noteq> []"
  shows "fst (snd (undo m fs)) = m\<lparr>history := butlast (history m)\<rparr>
       \<and> Suc (length (history (fst (snd (undo m fs))))) = length (history m)
       \<and> history m = history (fst (snd (undo m fs))) @ [last (history m)]
       \<and> (fst (undo m fs), snd (snd (undo m fs))) = reverse_action (last (history m)) fs"
  using assms by (auto simp: undo_def Let_def split: prod.splits)

theorem undo_pops_tail_witness:
  "history (ex_m\<lparr>history := [ex_copy, ex_mkdir]\<rparr>) \<noteq> []
   \<and> fst (snd (undo (ex_m\<lparr>history := [ex_copy, ex_mkdir]\<rparr>) ex_fs)) = ex_m\<lparr>history := [ex_copy]\<rparr>"
proof -
  have 1: "history (ex_m\<lparr>history := [ex_copy, ex_mkdir]\<rparr>) \<noteq> []" by simp
  note t = undo_pops_tail [OF 1, of ex_fs, THEN conjunct1]
  show ?thesis using 1 t by simp
qed

subsection \<open>C7: \<open>record_delete\<close> records only after the backup\<close>




subsection \<open>C8: undoing a mkdir never removes data\<close>

text \<open>
  Claim C8. With a MKDIR entry for path \<open>p\<close> at the tail:
  \<^item> if \<open>p\<close> is a directory with entries, \<open>undo\<close> returns
    \<open>(False, "Cannot undo: <name> is not empty")\<close> and the filesystem is unchanged;
  \<^item> if \<open>p\<close> is not a directory (missing, or a file), it returns
    \<open>(False, "Cannot undo: <name> no longer exists")\<close> and the filesystem is unchanged;
  \<^item> if \<open>p\<close> is an empty directory (not the root), it returns
    \<open>(True, "Undid mkdir: removed <name>")\<close>, \<open>p\<close> is gone and every path that is neither
    above nor below \<open>p\<close> is as before;
  \<^item> success, or any change of the filesystem, happens only for an empty directory.
\<close>

theorem undo_mkdir_keeps_data:
  assumes "history m \<noteq> []" and "action_type (last (history m)) = MKDIR"
      and "source (last (history m)) = p"
  shows "(\<forall>kids. lookup fs p = Some (Dir kids) \<and> kids \<noteq> [] \<longrightarrow>
            undo m fs = ((False, ''Cannot undo: '' @ name p @ '' is not empty''),
                         m\<lparr>history := butlast (history m)\<rparr>, fs))
       \<and> (\<not> is_dir fs p \<longrightarrow>
            undo m fs = ((False, ''Cannot undo: '' @ name p @ '' no longer exists''),
                         m\<lparr>history := butlast (history m)\<rparr>, fs))
       \<and> (lookup fs p = Some (Dir []) \<and> p \<noteq> [] \<longrightarrow>
            (\<exists>fs'. undo m fs = ((True, ''Undid mkdir: removed '' @ name p),
                                m\<lparr>history := butlast (history m)\<rparr>, fs')
                 \<and> \<not> exists fs' p
                 \<and> (\<forall>q. \<not> prefix p q \<and> \<not> prefix q p \<longrightarrow> lookup fs' q = lookup fs q)))
       \<and> (fst (fst (undo m fs)) \<or> snd (snd (undo m fs)) \<noteq> fs \<longrightarrow> lookup fs p = Some (Dir []))"
proof (cases "lookup fs p")
  case None
  then show ?thesis using assms
    by (simp add: undo_def Let_def reverse_action_def undo_try_def undo_mkdir_def exists_def
        is_dir_def)
next
  case (Some n)
  show ?thesis
  proof (cases n)
    case (File d)
    then show ?thesis using assms Some
      by (simp add: undo_def Let_def reverse_action_def undo_try_def undo_mkdir_def exists_def
          is_dir_def)
  next
    case (Dir kids)
    show ?thesis
    proof (cases "kids = [] \<and> p \<noteq> []")
      case True
      then obtain fs1 where r: "remove fs p = Some fs1" using remove_defined Some by blast
      then have "lookup fs1 p = None" using remove_lookup [of _ _ _ "[]"] by simp
      then show ?thesis using assms Some Dir True r remove_other [OF r]
        by (simp add: undo_def Let_def reverse_action_def undo_try_def undo_mkdir_def exists_def
            is_dir_def rmdir_def)
    next
      case False
      then show ?thesis using assms Some Dir
        by (auto simp: undo_def Let_def reverse_action_def undo_try_def undo_mkdir_def exists_def
            is_dir_def rmdir_def)
    qed
  qed
qed

theorem undo_mkdir_keeps_data_witness:
  "history (ex_m\<lparr>history := [ex_mkdir]\<rparr>) \<noteq> []
   \<and> action_type (last (history (ex_m\<lparr>history := [ex_mkdir]\<rparr>))) = MKDIR
   \<and> lookup ex_fs [''home'', ''docs''] = Some (Dir [(''n.txt'', File ''note'')])
   \<and> undo (ex_m\<lparr>history := [ex_mkdir]\<rparr>) ex_fs
       = ((False, ''Cannot undo: docs is not empty''), ex_m, ex_fs)"
proof -
  have 1: "history (ex_m\<lparr>history := [ex_mkdir]\<rparr>) \<noteq> []" by simp
  have 2: "action_type (last (history (ex_m\<lparr>history := [ex_mkdir]\<rparr>))) = MKDIR"
    by (simp add: ex_mkdir_def)
  have 3: "source (last (history (ex_m\<lparr>history := [ex_mkdir]\<rparr>))) = [''home'', ''docs'']"
    by (simp add: ex_mkdir_def)
  have 4: "lookup ex_fs [''home'', ''docs''] = Some (Dir [(''n.txt'', File ''note'')])"
    by (simp add: ex_fs_def)
  have 5: "lookup ex_fs [''home'', ''docs''] = Some (Dir [(''n.txt'', File ''note'')])
           \<and> [(''n.txt'', File ''note'')] \<noteq> []" using 4 by simp
  note t = undo_mkdir_keeps_data [OF 1 2 3, of ex_fs, THEN conjunct1, rule_format, OF 5]
  have "undo (ex_m\<lparr>history := [ex_mkdir]\<rparr>) ex_fs
       = ((False, ''Cannot undo: docs is not empty''), ex_m, ex_fs)"
    unfolding t by (simp add: ex_m_def name_def)
  then show ?thesis using 1 2 4 by blast
qed

subsection \<open>C9: cleanup touches the backup directory only\<close>

text \<open>
  Claim C9. \<open>cleanup\<close> returns the manager as it was, so the history and \<open>can_undo\<close>
  (true iff the history is not empty) are unchanged. Afterwards there is no directory
  at the backup path: a backup directory is removed with its content, and paths that
  are neither above nor below it are untouched.
\<close>

theorem cleanup_keeps_history:
  "fst (cleanup m fs) = m
   \<and> history (fst (cleanup m fs)) = history m
   \<and> can_undo (fst (cleanup m fs)) = can_undo m
   \<and> (can_undo (fst (cleanup m fs)) \<longleftrightarrow> history m \<noteq> [])
   \<and> \<not> is_dir (snd (cleanup m fs)) (backup_dir m)
   \<and> (is_dir fs (backup_dir m) \<longrightarrow> \<not> exists (snd (cleanup m fs)) (backup_dir m))
   \<and> (\<forall>q. \<not> prefix (backup_dir m) q \<and> \<not> prefix q (backup_dir m) \<longrightarrow>
          lookup (snd (cleanup m fs)) q = lookup fs q)"
proof (cases "lookup fs (backup_dir m)")
  case None
  then show ?thesis by (simp add: cleanup_def exists_def is_dir_def can_undo_def)
next
  case (Some n)
  show ?thesis
  proof (cases n)
    case (File d)
    then show ?thesis using Some
      by (simp add: cleanup_def exists_def is_dir_def can_undo_def rmtree_def)
  next
    case (Dir kids)
    have "backup_dir m \<noteq> []" by (simp add: backup_dir_def)
    then obtain fs1 where r: "remove fs (backup_dir m) = Some fs1"
      using remove_defined Some by blast
    then have "lookup fs1 (backup_dir m) = None" using remove_lookup [of _ _ _ "[]"] by simp
    then show ?thesis using Some Dir r remove_other [OF r]
      by (simp add: cleanup_def exists_def is_dir_def can_undo_def rmtree_def)
  qed
qed

theorem cleanup_keeps_history_witness:
  "is_dir ex_fs (backup_dir ex_m) \<and> \<not> exists (snd (cleanup ex_m ex_fs)) (backup_dir ex_m)
   \<and> fst (cleanup ex_m ex_fs) = ex_m"
proof -
  have 1: "is_dir ex_fs (backup_dir ex_m)" by (simp add: ex_fs_def ex_m_def backup_dir_def is_dir_def)
  note t = cleanup_keeps_history [of ex_m ex_fs]
  note a = t [THEN conjunct1]
  note b = t [THEN conjunct2, THEN conjunct2, THEN conjunct2, THEN conjunct2, THEN conjunct2,
      THEN conjunct1, rule_format, OF 1]
  show ?thesis using 1 a b by blast
qed

subsection \<open>C10: undoing a copy whose destination is gone\<close>

text \<open>
  Claim C10. With the tail entry's destination \<open>d\<close> missing on disk, \<open>undo\<close> of a COPY
  entry returns \<open>(True, "Undid copy: removed <name of d>")\<close>, whereas \<open>undo\<close> of a MOVE or
  RENAME entry returns \<open>(False, "Cannot undo: <name of d> no longer exists")\<close>; in both
  cases the entry is popped and the filesystem is unchanged.
\<close>

theorem undo_missing_destination:
  assumes "history m \<noteq> []" and "destination (last (history m)) = Some d" and "\<not> exists fs d"
  shows "(action_type (last (history m)) = COPY \<longrightarrow>
            undo m fs = ((True, ''Undid copy: removed '' @ name d),
                         m\<lparr>history := butlast (history m)\<rparr>, fs))
       \<and> (action_type (last (history m)) = MOVE \<or> action_type (last (history m)) = RENAME \<longrightarrow>
            undo m fs = ((False, ''Cannot undo: '' @ name d @ '' no longer exists''),
                         m\<lparr>history := butlast (history m)\<rparr>, fs))"
  using assms
  by (auto simp: undo_def Let_def reverse_action_def undo_try_def undo_copy_def undo_move_def
      undo_rename_def)


theorem undo_missing_destination_witness:
  "history (ex_m\<lparr>history := [ex_copy]\<rparr>) \<noteq> []
   \<and> destination (last (history (ex_m\<lparr>history := [ex_copy]\<rparr>))) = Some [''home'', ''b.txt'']
   \<and> \<not> exists ex_fs [''home'', ''b.txt'']
   \<and> undo (ex_m\<lparr>history := [ex_copy]\<rparr>) ex_fs = ((True, ''Undid copy: removed b.txt''), ex_m, ex_fs)"
proof -
  have 1: "history (ex_m\<lparr>history := [ex_copy]\<rparr>) \<noteq> []" by simp
  have 2: "destination (last (history (ex_m\<lparr>history := [ex_copy]\<rparr>))) = Some [''home'', ''b.txt'']"
    by (simp add: ex_copy_def)
  have 3: "\<not> exists ex_fs [''home'', ''b.txt'']" by (simp add: ex_fs_def exists_def)
  have 4: "action_type (last (history (ex_m\<lparr>history := [ex_copy]\<rparr>))) = COPY"
    by (simp add: ex_copy_def)
  note t = undo_missing_destination [OF 1 2 3, THEN conjunct1, rule_format, OF 4]
  have "undo (ex_m\<lparr>history := [ex_copy]\<rparr>) ex_fs = ((True, ''Undid copy: removed b.txt''), ex_m, ex_fs)"
    unfolding t by (simp add: ex_m_def name_def)
  then show ?thesis using 1 2 3 by blast
qed

end
